theory Spec2Isabelle
  imports Complex_Main
begin

section \<open>Python values used by the monitor\<close>

text \<open>
  An \<^verbatim>\<open>Optional[str]\<close> is a \<open>string option\<close>. Python's truth test on it is false for
  \<^verbatim>\<open>None\<close> and for the empty string; \<^verbatim>\<open>a or b\<close> yields \<open>a\<close> when \<open>a\<close> is truthy and
  \<open>b\<close> otherwise. Floats (metric values, clock readings) are modelled as rationals:
  exact arithmetic, no NaN and no infinities.
\<close>

definition truthy :: "string option \<Rightarrow> bool" where
  "truthy v = (case v of None \<Rightarrow> False | Some s \<Rightarrow> s \<noteq> [])"

definition py_or :: "string option \<Rightarrow> string option \<Rightarrow> string option" where
  "py_or a b = (if truthy a then a else b)"

text \<open>\<^verbatim>\<open>f"{x}"\<close> on an optional string: \<^verbatim>\<open>None\<close> prints as the word None.\<close>

definition fmt :: "string option \<Rightarrow> string" where
  "fmt v = (case v of None \<Rightarrow> ''None'' | Some s \<Rightarrow> s)"

type_synonym environ = "string \<Rightarrow> string option"

definition getenv :: "environ \<Rightarrow> string \<Rightarrow> string option" where
  "getenv env k = env k"

definition getenv_default :: "environ \<Rightarrow> string \<Rightarrow> string \<Rightarrow> string option" where
  "getenv_default env k d = (case env k of None \<Rightarrow> Some d | Some v \<Rightarrow> Some v)"

text \<open>
  A \<^verbatim>\<open>dict\<close> keeps insertion order: assigning to a key that is present replaces its
  value in place, assigning to a new key appends it.
\<close>

fun dict_set :: "'k \<Rightarrow> 'v \<Rightarrow> ('k \<times> 'v) list \<Rightarrow> ('k \<times> 'v) list" where
  "dict_set k v [] = [(k, v)]"
| "dict_set k v ((k', v') # d) =
     (if k = k' then (k, v) # d else (k', v') # dict_set k v d)"

definition dict_get :: "('k \<times> 'v) list \<Rightarrow> 'k \<Rightarrow> 'v \<Rightarrow> 'v" where
  "dict_get d k dflt = (case map_of d k of None \<Rightarrow> dflt | Some v \<Rightarrow> v)"

text \<open>\<^verbatim>\<open>sep.join(parts)\<close>\<close>

fun join :: "string \<Rightarrow> string list \<Rightarrow> string" where
  "join sep [] = []"
| "join sep [p] = p"
| "join sep (p # q # ps) = p @ sep @ join sep (q # ps)"

section \<open>prometheus_scraper.py\<close>

text \<open>
  One sample of \<^verbatim>\<open>text_string_to_metric_families\<close>: name, value and the label dict in
  the order the parser filled it.
\<close>

record sample =
  s_name :: string
  s_value :: rat
  s_labels :: "(string \<times> string) list"

record metric_data =
  md_value :: rat
  md_labels :: "(string \<times> string) list"
  md_timestamp :: rat

text \<open>
  What the GET and the parser deliver to \<^verbatim>\<open>scrape_metrics\<close>: an exception anywhere in
  the \<^verbatim>\<open>try\<close> block (request failure, error status, parser error), or all samples of all
  families in order, each with the reading of \<^verbatim>\<open>time.time()\<close> taken when it is stored.
\<close>

datatype scrape_input = ScrapeRaised | Scraped "(sample \<times> rat) list"

fun scrape_loop ::
  "(sample \<times> rat) list \<Rightarrow> (string \<times> metric_data) list \<Rightarrow> (string \<times> metric_data) list" where
  "scrape_loop [] metrics = metrics"
| "scrape_loop ((s, t) # rest) metrics =
     scrape_loop rest
       (dict_set (s_name s)
          \<lparr>md_value = s_value s, md_labels = s_labels s, md_timestamp = t\<rparr> metrics)"

definition scrape_metrics :: "scrape_input \<Rightarrow> (string \<times> metric_data) list" where
  "scrape_metrics inp =
     (case inp of ScrapeRaised \<Rightarrow> [] | Scraped samples \<Rightarrow> scrape_loop samples [])"

definition label_suffix :: "(string \<times> string) list \<Rightarrow> string" where
  "label_suffix labels = join ''_'' (map (\<lambda>(k, v). k @ ''_'' @ v) labels)"

definition simplified_name :: "string \<Rightarrow> (string \<times> string) list \<Rightarrow> string" where
  "simplified_name metric_name labels = metric_name @ ''_'' @ label_suffix labels"

fun extract_loop ::
  "(string \<times> metric_data) list \<Rightarrow> (string \<times> rat) list \<Rightarrow> (string \<times> rat) list" where
  "extract_loop [] key_metrics = key_metrics"
| "extract_loop ((metric_name, data) # rest) key_metrics =
     extract_loop rest
       (if md_labels data = [] then dict_set metric_name (md_value data) key_metrics
        else dict_set (simplified_name metric_name (md_labels data)) (md_value data)
               key_metrics)"

text \<open>
  The attributes \<^verbatim>\<open>_last_requests\<close> and \<^verbatim>\<open>_last_timestamp\<close> of the scraper object;
  \<open>None\<close> while the attribute does not exist.
\<close>

record scraper_state =
  last_requests :: "rat option"
  last_timestamp :: "rat option"

definition new_scraper :: scraper_state where
  "new_scraper = \<lparr>last_requests = None, last_timestamp = None\<rparr>"

text \<open>
  Float division raises \<^verbatim>\<open>ZeroDivisionError\<close> on a zero divisor; an exception is the
  left summand of a result.
\<close>

datatype py_error = ZeroDivisionError

definition truediv :: "rat \<Rightarrow> rat \<Rightarrow> py_error + rat" where
  "truediv a b = (if b = 0 then Inl ZeroDivisionError else Inr (a / b))"

text \<open>
  The request-rate block: \<open>current_time\<close> is the clock reading taken inside the
  \<^verbatim>\<open>hasattr\<close> branch; the result is the value stored under
  \<^verbatim>\<open>nginx_requests_per_second\<close>, if any.
\<close>

definition request_rate :: "scraper_state \<Rightarrow> rat \<Rightarrow> rat \<Rightarrow> py_error + rat option" where
  "request_rate st current_requests current_time =
     (case (last_requests st, last_timestamp st) of
        (Some lastr, Some lastt) \<Rightarrow>
          (let time_diff = current_time - lastt in
           if time_diff > 0
           then (case truediv (current_requests - lastr) time_diff of
                   Inl e \<Rightarrow> Inl e
                 | Inr requests_per_second \<Rightarrow> Inr (Some (max 0 requests_per_second)))
           else Inr None)
      | _ \<Rightarrow> Inr None)"

text \<open>
  The rate block with the store that follows it; \<open>store_time\<close> is the second clock
  reading, taken when the state is stored. An exception would leave before the store.
\<close>

definition derive ::
  "scraper_state \<Rightarrow> rat \<Rightarrow> rat \<Rightarrow> rat \<Rightarrow> py_error + (rat option \<times> scraper_state)" where
  "derive st current_requests current_time store_time =
     (case request_rate st current_requests current_time of
        Inl e \<Rightarrow> Inl e
      | Inr rate \<Rightarrow>
          Inr (rate,
               \<lparr>last_requests = Some current_requests, last_timestamp = Some store_time\<rparr>))"

definition get_nginx_key_metrics ::
  "scraper_state \<Rightarrow> scrape_input \<Rightarrow> rat \<Rightarrow> rat
     \<Rightarrow> py_error + ((string \<times> rat) list \<times> scraper_state)" where
  "get_nginx_key_metrics st inp current_time store_time =
     (let all_metrics = scrape_metrics inp in
      if all_metrics = [] then Inr ([], st)
      else
        let key_metrics = extract_loop all_metrics [];
            current_requests = dict_get key_metrics ''nginx_http_requests_total'' 0
        in (case derive st current_requests current_time store_time of
              Inl e \<Rightarrow> Inl e
            | Inr (rate, st') \<Rightarrow>
                Inr (case rate of
                       None \<Rightarrow> key_metrics
                     | Some r \<Rightarrow> dict_set ''nginx_requests_per_second'' r key_metrics,
                     st')))"

section \<open>azure_monitor_sender.py\<close>

text \<open>
  The metadata service either fails (unreachable, error status, body that is not a JSON
  object) or returns a JSON object. Its fields are strings or null; a key that the
  object does not have is \<open>None\<close>.
\<close>

datatype json_value = JNull | JString string

datatype imds_response = ImdsFailed | ImdsMetadata "string \<Rightarrow> json_value option"

text \<open>
  \<^verbatim>\<open>metadata.get(k)\<close> and \<^verbatim>\<open>metadata.get(k, d)\<close>: the default stands in for an absent
  key only; a null field is \<^verbatim>\<open>None\<close> in both.
\<close>

definition json_get :: "(string \<Rightarrow> json_value option) \<Rightarrow> string \<Rightarrow> string option" where
  "json_get metadata k =
     (case metadata k of None \<Rightarrow> None | Some JNull \<Rightarrow> None | Some (JString v) \<Rightarrow> Some v)"

definition json_get_default ::
  "(string \<Rightarrow> json_value option) \<Rightarrow> string \<Rightarrow> string \<Rightarrow> string option" where
  "json_get_default metadata k d =
     (case metadata k of None \<Rightarrow> Some d | Some JNull \<Rightarrow> None | Some (JString v) \<Rightarrow> Some v)"

record imds_info =
  i_subscriptionId :: "string option"
  i_resourceGroupName :: "string option"
  i_name :: "string option"
  i_location :: "string option"
  i_vmId :: "string option"
  i_resourceId :: "string option"
  i_isVmss :: bool
  i_vmScaleSetName :: "string option"
  i_instanceId :: "string option"

text \<open>
  \<^verbatim>\<open>_get_imds_metadata\<close>; \<open>None\<close> is the raised exception. \<^verbatim>\<open>isVmss\<close> holds the scale-set
  name or a false value in the source and is only ever tested for truth.
\<close>

definition get_imds_metadata :: "imds_response \<Rightarrow> imds_info option" where
  "get_imds_metadata r =
     (case r of
        ImdsFailed \<Rightarrow> None
      | ImdsMetadata metadata \<Rightarrow>
          (let is_vmss = truthy (json_get metadata ''vmScaleSetName'') in
           Some \<lparr>i_subscriptionId = json_get metadata ''subscriptionId'',
                 i_resourceGroupName = json_get metadata ''resourceGroupName'',
                 i_name = json_get metadata ''name'',
                 i_location = json_get metadata ''location'',
                 i_vmId = json_get metadata ''vmId'',
                 i_resourceId = json_get metadata ''resourceId'',
                 i_isVmss = is_vmss,
                 i_vmScaleSetName =
                   (if is_vmss then json_get metadata ''vmScaleSetName'' else None),
                 i_instanceId = (if is_vmss then json_get metadata ''name'' else None)\<rparr>))"

record sender =
  subscription_id :: "string option"
  resource_group :: "string option"
  resource_name :: "string option"
  location :: "string option"
  is_vmss :: bool
  vmss_name :: "string option"
  instance_id :: "string option"
  resource_uri :: "string option"
  metrics_endpoint :: "string option"

definition build_resource_uri ::
  "string option \<Rightarrow> string option \<Rightarrow> string option \<Rightarrow> bool \<Rightarrow> string option \<Rightarrow> string option" where
  "build_resource_uri sub rg rname vmss vname =
     (if truthy sub \<and> truthy rg then
        (if vmss \<and> truthy vname then
           Some (''/subscriptions/'' @ fmt sub @ ''/resourceGroups/'' @ fmt rg
                 @ ''/providers/Microsoft.Compute/virtualMachineScaleSets/'' @ fmt vname)
         else if truthy rname then
           Some (''/subscriptions/'' @ fmt sub @ ''/resourceGroups/'' @ fmt rg
                 @ ''/providers/Microsoft.Compute/virtualMachines/'' @ fmt rname)
         else None)
      else None)"

text \<open>
  \<^verbatim>\<open>AzureMonitorSender.__init__\<close>, after the credential is chosen: the three constructor
  arguments, the process environment and the metadata service's answer.
\<close>

definition init_sender ::
  "string option \<Rightarrow> string option \<Rightarrow> string option \<Rightarrow> environ \<Rightarrow> imds_response \<Rightarrow> sender" where
  "init_sender subscription_id_arg resource_group_arg resource_name_arg env imds =
     (let (sub, rg, rname, loc, vmss, vname, inst) =
            (case get_imds_metadata imds of
               Some info \<Rightarrow>
                 (py_or (py_or subscription_id_arg (getenv env ''AZURE_SUBSCRIPTION_ID''))
                        (i_subscriptionId info),
                  py_or (py_or resource_group_arg (getenv env ''AZURE_RESOURCE_GROUP''))
                        (i_resourceGroupName info),
                  py_or (py_or resource_name_arg (getenv env ''AZURE_RESOURCE_NAME''))
                        (i_name info),
                  py_or (i_location info) (getenv_default env ''AZURE_REGION'' ''northeurope''),
                  i_isVmss info, i_vmScaleSetName info, i_instanceId info)
             | None \<Rightarrow>
                 (py_or subscription_id_arg (getenv env ''AZURE_SUBSCRIPTION_ID''),
                  py_or resource_group_arg (getenv env ''AZURE_RESOURCE_GROUP''),
                  py_or resource_name_arg (getenv env ''AZURE_RESOURCE_NAME''),
                  getenv_default env ''AZURE_REGION'' ''northeurope'',
                  False, None, None));
          uri = build_resource_uri sub rg rname vmss vname
      in \<lparr>subscription_id = sub, resource_group = rg, resource_name = rname,
          location = loc, is_vmss = vmss, vmss_name = vname, instance_id = inst,
          resource_uri = uri,
          metrics_endpoint =
            (if truthy uri
             then Some (''https://'' @ fmt loc @ ''.monitoring.azure.com'' @ fmt uri @ ''/metrics'')
             else None)\<rparr>)"

text \<open>The region \<^verbatim>\<open>send_metrics\<close> puts into the endpoint of every POST.\<close>

definition send_region :: "sender \<Rightarrow> string" where
  "send_region s = fmt (py_or (location s) (Some ''northeurope''))"

datatype token_result = TokenRaised | Token string

datatype post_result = PostRaised | Response int

record payload =
  p_time :: string
  p_metric :: string
  p_namespace :: string
  p_dimNames :: "string list"
  p_dimValues :: "string list"
  p_min :: rat
  p_max :: rat
  p_sum :: rat
  p_count :: nat

record http_post =
  h_endpoint :: string
  h_authorization :: string
  h_json :: payload

definition build_post :: "sender \<Rightarrow> string \<Rightarrow> string \<Rightarrow> string \<Rightarrow> string \<Rightarrow> rat \<Rightarrow> http_post" where
  "build_post s bearer timestamp namespace metric_name metric_value =
     \<lparr>h_endpoint =
        ''https://'' @ send_region s @ ''.monitoring.azure.com'' @ fmt (resource_uri s)
        @ ''/metrics'',
      h_authorization = ''Bearer '' @ bearer,
      h_json =
        \<lparr>p_time = timestamp, p_metric = metric_name, p_namespace = namespace,
         p_dimNames = (if is_vmss s \<and> truthy (instance_id s) then [''VMName''] else []),
         p_dimValues =
           (if is_vmss s \<and> truthy (instance_id s)
            then [fmt (vmss_name s) @ ''_'' @ fmt (instance_id s)] else []),
         p_min = metric_value, p_max = metric_value, p_sum = metric_value,
         p_count = 1\<rparr>\<rparr>"

definition accepted_status :: "int \<Rightarrow> bool" where
  "accepted_status code = (code = 200 \<or> code = 202 \<or> code = 204)"

text \<open>
  The \<^verbatim>\<open>for\<close> loop of \<^verbatim>\<open>send_metrics\<close>. The backend answers the \<open>i\<close>-th POST of the
  call with \<open>backend i\<close>. The result is: whether \<^verbatim>\<open>requests.post\<close> raised, the value of
  \<^verbatim>\<open>success_count\<close> when the loop was left, and the POSTs made, in order.
\<close>

fun send_each ::
  "sender \<Rightarrow> string \<Rightarrow> string \<Rightarrow> string \<Rightarrow> (nat \<Rightarrow> post_result) \<Rightarrow> (string \<times> rat) list
     \<Rightarrow> nat \<Rightarrow> http_post list \<Rightarrow> bool \<times> nat \<times> http_post list" where
  "send_each s bearer timestamp namespace backend [] success_count sent =
     (False, success_count, sent)"
| "send_each s bearer timestamp namespace backend ((metric_name, metric_value) # rest)
     success_count sent =
     (let sent' = sent @ [build_post s bearer timestamp namespace metric_name metric_value] in
      case backend (length sent) of
        PostRaised \<Rightarrow> (True, success_count, sent')
      | Response code \<Rightarrow>
          send_each s bearer timestamp namespace backend rest
            (if accepted_status code then success_count + 1 else success_count) sent')"

record send_result =
  returned :: bool
  token_requests :: nat
  posts :: "http_post list"
  accepted :: nat

definition send_metrics ::
  "sender \<Rightarrow> token_result \<Rightarrow> string \<Rightarrow> string \<Rightarrow> (nat \<Rightarrow> post_result) \<Rightarrow> (string \<times> rat) list
     \<Rightarrow> send_result" where
  "send_metrics s tok timestamp namespace backend metrics =
     (if \<not> truthy (resource_uri s)
      then \<lparr>returned = False, token_requests = 0, posts = [], accepted = 0\<rparr>
      else
        (case tok of
           TokenRaised \<Rightarrow> \<lparr>returned = False, token_requests = 1, posts = [], accepted = 0\<rparr>
         | Token bearer \<Rightarrow>
             (let (raised, success_count, sent) =
                    send_each s bearer timestamp namespace backend metrics 0 []
              in \<lparr>returned =
                    (if raised then False
                     else if success_count > 0 then success_count = length metrics
                     else False),
                  token_requests = 1, posts = sent, accepted = success_count\<rparr>)))"

text \<open>\<^verbatim>\<open>AzureMonitorSender.health_check\<close>: a token with a non-empty string can be had.\<close>

definition sender_health_check :: "sender \<Rightarrow> token_result \<Rightarrow> bool" where
  "sender_health_check s tok =
     (if \<not> truthy (resource_uri s) then False
      else (case tok of TokenRaised \<Rightarrow> False | Token bearer \<Rightarrow> bearer \<noteq> []))"

record azure_config =
  c_subscription_id :: "string option"
  c_resource_group :: "string option"
  c_resource_name :: "string option"
  c_region :: "string option"
  c_is_vmss :: bool
  c_vmss_name :: "string option"
  c_instance_id :: "string option"

text \<open>
  \<^verbatim>\<open>get_azure_config\<close>: the environment first, the metadata service only for the values
  still missing. A failed metadata request leaves the environment's values.
\<close>

definition get_azure_config :: "environ \<Rightarrow> imds_response \<Rightarrow> azure_config" where
  "get_azure_config env imds =
     (let config =
            \<lparr>c_subscription_id = getenv env ''AZURE_SUBSCRIPTION_ID'',
             c_resource_group = getenv env ''AZURE_RESOURCE_GROUP'',
             c_resource_name = getenv env ''AZURE_RESOURCE_NAME'',
             c_region = getenv_default env ''AZURE_REGION'' ''northeurope'',
             c_is_vmss = False, c_vmss_name = None, c_instance_id = None\<rparr>
      in case imds of
           ImdsFailed \<Rightarrow> config
         | ImdsMetadata metadata \<Rightarrow>
             (let is_vmss = truthy (json_get metadata ''vmScaleSetName'') in
              \<lparr>c_subscription_id =
                 (if \<not> truthy (c_subscription_id config)
                  then json_get metadata ''subscriptionId''
                  else c_subscription_id config),
               c_resource_group =
                 (if \<not> truthy (c_resource_group config)
                  then json_get metadata ''resourceGroupName''
                  else c_resource_group config),
               c_resource_name =
                 (if \<not> truthy (c_resource_name config) then json_get metadata ''name''
                  else c_resource_name config),
               c_region =
                 (if \<not> truthy (c_region config)
                  then json_get_default metadata ''location'' ''northeurope''
                  else c_region config),
               c_is_vmss = is_vmss,
               c_vmss_name = (if is_vmss then json_get metadata ''vmScaleSetName'' else None),
               c_instance_id = (if is_vmss then json_get metadata ''name'' else None)\<rparr>))"

section \<open>nginx_metrics_monitor.py\<close>

text \<open>
  \<^verbatim>\<open>NginxMetricsMonitor.__init__\<close> builds the sender from the three values of
  \<^verbatim>\<open>get_azure_config\<close>; each of the two makes its own metadata request.
\<close>

definition monitor_sender :: "environ \<Rightarrow> imds_response \<Rightarrow> imds_response \<Rightarrow> sender" where
  "monitor_sender env imds_config imds_sender =
     (let azure_config = get_azure_config env imds_config in
      init_sender (c_subscription_id azure_config) (c_resource_group azure_config)
        (c_resource_name azure_config) env imds_sender)"

text \<open>
  What one pass of the monitoring loop meets: the scrape, the two clock readings of the
  scraper, the token, the timestamp and the backend of the send, and what else happens
  to the loop.
  \<^item> \<open>CollectRaised\<close>: an exception inside \<^verbatim>\<open>collect_and_send_metrics\<close>, before the
    scraper stored anything; caught there, the call returns \<^verbatim>\<open>False\<close>.
  \<^item> \<open>WaitRaised\<close>: an exception that reaches the \<^verbatim>\<open>except Exception\<close> of \<^verbatim>\<open>run\<close>,
    raised during the wait that follows the cycle.
  \<^item> \<open>Interrupt\<close>: a \<^verbatim>\<open>KeyboardInterrupt\<close> during that wait.
  \<open>c_signal\<close>: the signal handler has set \<^verbatim>\<open>self.running = False\<close> by the time the
  \<^verbatim>\<open>while\<close> condition is tested again.
\<close>

datatype fault = NoFault | CollectRaised | WaitRaised | Interrupt

record cycle_env =
  c_scrape :: scrape_input
  c_current_time :: rat
  c_store_time :: rat
  c_token :: token_result
  c_timestamp :: string
  c_backend :: "nat \<Rightarrow> post_result"
  c_fault :: fault
  c_signal :: bool

definition collect_and_send_metrics ::
  "scraper_state \<Rightarrow> sender \<Rightarrow> cycle_env \<Rightarrow> bool \<times> scraper_state" where
  "collect_and_send_metrics st s e =
     (if c_fault e = CollectRaised then (False, st)
      else
        (case get_nginx_key_metrics st (c_scrape e) (c_current_time e) (c_store_time e) of
           Inl err \<Rightarrow> (False, st)
         | Inr (metrics, st') \<Rightarrow>
             if metrics = [] then (False, st')
             else (returned (send_metrics s (c_token e) (c_timestamp e) ''Custom/NGINX''
                               (c_backend e) metrics), st')))"

definition max_consecutive_failures :: nat where
  "max_consecutive_failures = 5"

text \<open>
  How \<^verbatim>\<open>run\<close> ends: it returns (the loop was left), it calls \<^verbatim>\<open>sys.exit\<close>, or the
  loop is still running when the recorded passes are used up.
\<close>

datatype run_end = Returned | SysExit int | StillRunning

record run_result =
  r_end :: run_end
  r_cycles :: nat
  r_failures :: nat

text \<open>
  The \<^verbatim>\<open>while self.running\<close> loop, one list element per pass; \<open>cycles\<close> counts the
  calls of \<^verbatim>\<open>collect_and_send_metrics\<close>.
\<close>

fun run_loop ::
  "sender \<Rightarrow> scraper_state \<Rightarrow> nat \<Rightarrow> nat \<Rightarrow> cycle_env list \<Rightarrow> run_result" where
  "run_loop s st consecutive_failures cycles [] =
     \<lparr>r_end = StillRunning, r_cycles = cycles, r_failures = consecutive_failures\<rparr>"
| "run_loop s st consecutive_failures cycles (e # es) =
     (let (success, st') = collect_and_send_metrics st s e;
          failures = (if success then 0 else consecutive_failures + 1)
      in if \<not> success \<and> failures \<ge> max_consecutive_failures
         then \<lparr>r_end = Returned, r_cycles = cycles + 1, r_failures = failures\<rparr>
         else if c_fault e = Interrupt
         then \<lparr>r_end = Returned, r_cycles = cycles + 1, r_failures = failures\<rparr>
         else
           let failures' = (if c_fault e = WaitRaised then failures + 1 else failures)
           in if c_signal e
              then \<lparr>r_end = Returned, r_cycles = cycles + 1, r_failures = failures'\<rparr>
              else run_loop s st' failures' (cycles + 1) es)"

definition monitor_health_check :: "bool \<Rightarrow> sender \<Rightarrow> token_result \<Rightarrow> bool" where
  "monitor_health_check prometheus_healthy s tok =
     (let azure_healthy = sender_health_check s tok in prometheus_healthy \<and> azure_healthy)"

definition run ::
  "bool \<Rightarrow> token_result \<Rightarrow> sender \<Rightarrow> scraper_state \<Rightarrow> cycle_env list \<Rightarrow> run_result" where
  "run prometheus_healthy tok s st envs =
     (if \<not> monitor_health_check prometheus_healthy s tok
      then \<lparr>r_end = SysExit 1, r_cycles = 0, r_failures = 0\<rparr>
      else run_loop s st 0 0 envs)"

definition run_once ::
  "bool \<Rightarrow> token_result \<Rightarrow> sender \<Rightarrow> scraper_state \<Rightarrow> cycle_env \<Rightarrow> bool" where
  "run_once prometheus_healthy tok s st e =
     (if \<not> monitor_health_check prometheus_healthy s tok then False
      else fst (collect_and_send_metrics st s e))"

text \<open>
  The run modes of \<^verbatim>\<open>main\<close> (\<^verbatim>\<open>--health-check\<close>, \<^verbatim>\<open>--once\<close>, neither) with what the
  mode meets, and the exit status of the process: \<open>None\<close> while it has not ended. When
  \<^verbatim>\<open>monitor.run()\<close> returns, \<^verbatim>\<open>main\<close> returns and the interpreter exits with status 0.
\<close>

datatype run_mode = HealthCheckOnly | Once cycle_env | Continuous "cycle_env list"

definition main ::
  "run_mode \<Rightarrow> bool \<Rightarrow> token_result \<Rightarrow> sender \<Rightarrow> int option" where
  "main mode prometheus_healthy tok s =
     (case mode of
        HealthCheckOnly \<Rightarrow>
          Some (if monitor_health_check prometheus_healthy s tok then 0 else 1)
      | Once e \<Rightarrow>
          Some (if run_once prometheus_healthy tok s new_scraper e then 0 else 1)
      | Continuous envs \<Rightarrow>
          (case r_end (run prometheus_healthy tok s new_scraper envs) of
             SysExit code \<Rightarrow> Some code
           | Returned \<Rightarrow> Some 0
           | StillRunning \<Rightarrow> None))"

section \<open>Auxiliary notions for the statements\<close>

fun is_accepted :: "post_result \<Rightarrow> bool" where
  "is_accepted PostRaised = False"
| "is_accepted (Response code) = accepted_status code"

text \<open>The number of accepted answers among the POSTs \<open>a, \<dots>, a + k - 1\<close>.\<close>

fun accepted_between :: "(nat \<Rightarrow> post_result) \<Rightarrow> nat \<Rightarrow> nat \<Rightarrow> nat" where
  "accepted_between backend a 0 = 0"
| "accepted_between backend a (Suc k) =
     (if is_accepted (backend a) then 1 else 0) + accepted_between backend (Suc a) k"

text \<open>The POSTs of a whole batch, one per metric, in the order of the dict.\<close>

definition build_posts ::
  "sender \<Rightarrow> string \<Rightarrow> string \<Rightarrow> string \<Rightarrow> (string \<times> rat) list \<Rightarrow> http_post list" where
  "build_posts s bearer timestamp namespace metrics =
     map (\<lambda>(n, v). build_post s bearer timestamp namespace n v) metrics"

text \<open>A standalone VM configured by constructor arguments, the metadata service unreachable.\<close>

definition vm_sender :: sender where
  "vm_sender = init_sender (Some ''sub'') (Some ''rg'') (Some ''vm1'') (\<lambda>k. None) ImdsFailed"

text \<open>A field of the metadata service's answer; \<open>None\<close> when the request failed.\<close>

definition imds_field :: "imds_response \<Rightarrow> string \<Rightarrow> string option" where
  "imds_field imds k =
     (case imds of ImdsFailed \<Rightarrow> None | ImdsMetadata metadata \<Rightarrow> json_get metadata k)"

text \<open>
  The rate block run over a sequence of calls: each call brings the counter value and
  its two clock readings; the result lists what each call yielded for the rate. A call
  that raises leaves the stored state as it was.
\<close>

record observation =
  o_requests :: rat
  o_current_time :: rat
  o_store_time :: rat

fun derive_all ::
  "scraper_state \<Rightarrow> observation list \<Rightarrow> (py_error + rat option) list" where
  "derive_all st [] = []"
| "derive_all st (ob # rest) =
     (case derive st (o_requests ob) (o_current_time ob) (o_store_time ob) of
        Inl e \<Rightarrow> Inl e # derive_all st rest
      | Inr (rate, st') \<Rightarrow> Inr rate # derive_all st' rest)"

text \<open>The state after the same sequence of calls.\<close>

fun derive_state :: "scraper_state \<Rightarrow> observation list \<Rightarrow> scraper_state" where
  "derive_state st [] = st"
| "derive_state st (ob # rest) =
     (case derive st (o_requests ob) (o_current_time ob) (o_store_time ob) of
        Inl e \<Rightarrow> derive_state st rest
      | Inr (rate, st') \<Rightarrow> derive_state st' rest)"

text \<open>
  The parsed result of a scrape: the dict \<^verbatim>\<open>key_metrics\<close> of \<^verbatim>\<open>get_nginx_key_metrics\<close>
  before the request rate is added.
\<close>

definition parsed :: "scrape_input \<Rightarrow> (string \<times> rat) list" where
  "parsed inp = extract_loop (scrape_metrics inp) []"

text \<open>A pass of the loop whose scrape fails: \<^verbatim>\<open>scrape_metrics\<close> returns the empty dict.\<close>

definition failing_cycle :: cycle_env where
  "failing_cycle =
     \<lparr>c_scrape = ScrapeRaised, c_current_time = 0, c_store_time = 0, c_token = Token ''t'',
      c_timestamp = ''2025-01-01T00:00:00Z'', c_backend = (\<lambda>i. Response 200),
      c_fault = NoFault, c_signal = False\<rparr>"

text \<open>A pass of the loop whose scrape succeeds and holds no sample.\<close>

definition empty_scrape_cycle :: cycle_env where
  "empty_scrape_cycle =
     \<lparr>c_scrape = Scraped [], c_current_time = 0, c_store_time = 0, c_token = Token ''t'',
      c_timestamp = ''2025-01-01T00:00:00Z'', c_backend = (\<lambda>i. Response 200),
      c_fault = NoFault, c_signal = False\<rparr>"

text \<open>A label key or value in which the separator of the synthetic key does not occur.\<close>

definition no_underscore :: "string \<Rightarrow> bool" where
  "no_underscore x = (CHR ''_'' \<notin> set x)"

section \<open>Forwarding a batch\<close>

text \<open>
  While no POST raises, the loop goes through the whole batch, whatever the status codes
  are; the first POST that raises ends it.
\<close>

lemma send_each_no_raise:
  "\<forall>i < length ms. backend (length sent + i) \<noteq> PostRaised \<Longrightarrow>
   send_each s b ts ns backend ms sc sent =
     (False, sc + accepted_between backend (length sent) (length ms),
      sent @ build_posts s b ts ns ms)"
proof (induction ms arbitrary: sc sent)
  case Nil
  then show ?case by (simp add: build_posts_def)
next
  case (Cons m ms)
  obtain n v where m: "m = (n, v)" by (cases m)
  from Cons.prems have h0: "backend (length sent) \<noteq> PostRaised" by force
  then obtain code where c: "backend (length sent) = Response code"
    by (cases "backend (length sent)") auto
  let ?sent' = "sent @ [build_post s b ts ns n v]"
  have rest: "\<forall>i < length ms. backend (length ?sent' + i) \<noteq> PostRaised"
    using Cons.prems by force
  show ?case
    using Cons.IH [OF rest] c
    by (simp add: m build_posts_def)
qed

lemma send_each_raise:
  "j < length ms \<Longrightarrow> backend (length sent + j) = PostRaised \<Longrightarrow>
   \<forall>i < j. backend (length sent + i) \<noteq> PostRaised \<Longrightarrow>
   send_each s b ts ns backend ms sc sent =
     (True, sc + accepted_between backend (length sent) j,
      sent @ build_posts s b ts ns (take (Suc j) ms))"
proof (induction ms arbitrary: sc sent j)
  case Nil
  then show ?case by simp
next
  case (Cons m ms)
  obtain n v where m: "m = (n, v)" by (cases m)
  let ?sent' = "sent @ [build_post s b ts ns n v]"
  show ?case
  proof (cases j)
    case 0
    with Cons.prems show ?thesis by (simp add: m build_posts_def)
  next
    case (Suc k)
    from Cons.prems Suc have h0: "backend (length sent) \<noteq> PostRaised" by force
    then obtain code where c: "backend (length sent) = Response code"
      by (cases "backend (length sent)") auto
    have k: "k < length ms" using Cons.prems Suc by simp
    have r: "backend (length ?sent' + k) = PostRaised" using Cons.prems Suc by simp
    have rest: "\<forall>i < k. backend (length ?sent' + i) \<noteq> PostRaised"
      using Cons.prems(3) Suc by force
    show ?thesis
      using Cons.IH [OF k r rest] c
      by (simp add: m Suc build_posts_def)
  qed
qed

lemma accepted_between_add:
  "accepted_between backend a (j + k)
   = accepted_between backend a j + accepted_between backend (a + j) k"
  by (induction j arbitrary: a) auto

lemma accepted_between_all:
  "\<forall>i < k. is_accepted (backend (a + i)) \<Longrightarrow> accepted_between backend a k = k"
proof (induction k arbitrary: a)
  case 0
  then show ?case by simp
next
  case (Suc k)
  have "is_accepted (backend a)" using Suc.prems by force
  moreover have "\<forall>i < k. is_accepted (backend (Suc a + i))" using Suc.prems by force
  ultimately show ?case using Suc.IH [of "Suc a"] by simp
qed

lemma accepted_between_none:
  "\<forall>i < k. \<not> is_accepted (backend (a + i)) \<Longrightarrow> accepted_between backend a k = 0"
proof (induction k arbitrary: a)
  case 0
  then show ?case by simp
next
  case (Suc k)
  have "\<not> is_accepted (backend a)" using Suc.prems by force
  moreover have "\<forall>i < k. \<not> is_accepted (backend (Suc a + i))" using Suc.prems by force
  ultimately show ?case using Suc.IH [of "Suc a"] by simp
qed

lemma accepted_first_k:
  assumes "K \<le> N" "\<forall>i < K. is_accepted (backend i)"
    "\<forall>i. K \<le> i \<and> i < N \<longrightarrow> \<not> is_accepted (backend i)"
  shows "accepted_between backend 0 N = K"
proof -
  have "accepted_between backend 0 N = accepted_between backend 0 (K + (N - K))"
    using assms(1) by simp
  also have "\<dots> = accepted_between backend 0 K + accepted_between backend K (N - K)"
    using accepted_between_add [of backend 0 K "N - K"] by simp
  also have "accepted_between backend 0 K = K"
    using accepted_between_all [of K backend 0] assms(2) by simp
  also have "accepted_between backend K (N - K) = 0"
    using accepted_between_none [of "N - K" backend K] assms(3) by simp
  finally show ?thesis by simp
qed

lemma vm_sender_uri:
  "resource_uri vm_sender
   = Some ''/subscriptions/sub/resourceGroups/rg/providers/Microsoft.Compute/virtualMachines/vm1''"
  by (simp add: vm_sender_def init_sender_def get_imds_metadata_def py_or_def truthy_def
      getenv_def getenv_default_def build_resource_uri_def fmt_def)

lemma vm_sender_configured: "truthy (resource_uri vm_sender)"
  by (simp add: vm_sender_uri truthy_def)

text \<open>
  C5, as amended: with a resource URI and a token, a batch of \<open>N\<close> metrics of which the
  backend accepts the first \<open>K\<close> and answers the rest with a status outside
  \<open>{200, 202, 204}\<close> is POSTed whole (\<open>N\<close> requests, one per metric, in order),
  \<^verbatim>\<open>success_count\<close> ends at \<open>K\<close>, and \<^verbatim>\<open>send_metrics\<close> returns \<^verbatim>\<open>True\<close> exactly when
  \<open>K = N\<close> and \<open>N > 0\<close>; so it returns \<^verbatim>\<open>True\<close> only if every metric was accepted.
\<close>

theorem send_metrics_first_k_accepted:
  assumes uri: "truthy (resource_uri s)"
    and kn: "K \<le> length metrics"
    and acc: "\<forall>i < K. \<exists>code. backend i = Response code \<and> accepted_status code"
    and rej: "\<forall>i. K \<le> i \<and> i < length metrics
                \<longrightarrow> (\<exists>code. backend i = Response code \<and> \<not> accepted_status code)"
  shows "returned (send_metrics s (Token bearer) timestamp namespace backend metrics)
           = (K = length metrics \<and> 0 < K)
         \<and> posts (send_metrics s (Token bearer) timestamp namespace backend metrics)
           = build_posts s bearer timestamp namespace metrics
         \<and> length (posts (send_metrics s (Token bearer) timestamp namespace backend metrics))
           = length metrics
         \<and> accepted (send_metrics s (Token bearer) timestamp namespace backend metrics) = K"
proof -
  have noraise: "\<forall>i < length metrics. backend (length ([]::http_post list) + i) \<noteq> PostRaised"
  proof (intro allI impI)
    fix i assume i: "i < length metrics"
    show "backend (length ([]::http_post list) + i) \<noteq> PostRaised"
    proof (cases "i < K")
      case True
      then obtain code where "backend i = Response code" using acc by blast
      then show ?thesis by simp
    next
      case False
      then have "K \<le> i \<and> i < length metrics" using i by simp
      then obtain code where "backend i = Response code" using rej by blast
      then show ?thesis by simp
    qed
  qed
  have a: "\<forall>i < K. is_accepted (backend i)" using acc by force
  have r: "\<forall>i. K \<le> i \<and> i < length metrics \<longrightarrow> \<not> is_accepted (backend i)"
    using rej by force
  have cnt: "accepted_between backend 0 (length metrics) = K"
    by (rule accepted_first_k [OF kn a r])
  have each: "send_each s bearer timestamp namespace backend metrics 0 []
              = (False, K, build_posts s bearer timestamp namespace metrics)"
    using send_each_no_raise [OF noraise, of s bearer timestamp namespace 0] cnt by simp
  show ?thesis
    using uri by (auto simp: send_metrics_def each build_posts_def)
qed

theorem send_metrics_first_k_accepted_witness:
  "returned (send_metrics vm_sender (Token ''t'') ''2025-01-01T00:00:00Z'' ''Custom/NGINX''
       (\<lambda>i. if i < 1 then Response 200 else Response 500)
       [(''nginx_connections_active'', 4), (''nginx_http_requests_total'', 1000)]) = False
   \<and> length (posts (send_metrics vm_sender (Token ''t'') ''2025-01-01T00:00:00Z'' ''Custom/NGINX''
       (\<lambda>i. if i < 1 then Response 200 else Response 500)
       [(''nginx_connections_active'', 4), (''nginx_http_requests_total'', 1000)])) = 2
   \<and> accepted (send_metrics vm_sender (Token ''t'') ''2025-01-01T00:00:00Z'' ''Custom/NGINX''
       (\<lambda>i. if i < 1 then Response 200 else Response 500)
       [(''nginx_connections_active'', 4), (''nginx_http_requests_total'', 1000)]) = 1"
  using send_metrics_first_k_accepted [of vm_sender 1
      "[(''nginx_connections_active'', 4), (''nginx_http_requests_total'', 1000)]"
      "\<lambda>i. if i < 1 then Response 200 else Response 500"
      "''t''" "''2025-01-01T00:00:00Z''" "''Custom/NGINX''"]
    vm_sender_configured
  by (simp add: accepted_status_def build_posts_def)

text \<open>
  C5 as stated asks for \<^verbatim>\<open>success = false\<close> also when \<open>K = N\<close>: a batch of one metric
  that the backend accepts returns \<^verbatim>\<open>True\<close>.
\<close>

theorem send_metrics_all_accepted_counterexample:
  "returned (send_metrics vm_sender (Token ''t'') ''2025-01-01T00:00:00Z'' ''Custom/NGINX''
       (\<lambda>i. Response 200) [(''nginx_connections_active'', 4)]) = True
   \<and> accepted (send_metrics vm_sender (Token ''t'') ''2025-01-01T00:00:00Z'' ''Custom/NGINX''
       (\<lambda>i. Response 200) [(''nginx_connections_active'', 4)]) = 1"
  by (simp add: send_metrics_def vm_sender_configured accepted_status_def)

text \<open>
  C3, as amended: with a resource URI and a token, a response with a status outside
  \<open>{200, 202, 204}\<close> counts the metric as not accepted and the loop goes on: while no
  POST raises, every metric of the batch is POSTed, in order, and \<^verbatim>\<open>success_count\<close> is
  the number of accepted answers. A transport exception is different: the first POST
  that raises is the last one made, the metrics after it are not attempted, and
  \<^verbatim>\<open>send_metrics\<close> returns \<^verbatim>\<open>False\<close>.
\<close>

theorem send_metrics_status_continues_exception_aborts:
  assumes uri: "truthy (resource_uri s)"
  shows "((\<forall>i < length metrics. backend i \<noteq> PostRaised) \<longrightarrow>
            posts (send_metrics s (Token bearer) timestamp namespace backend metrics)
              = build_posts s bearer timestamp namespace metrics
          \<and> accepted (send_metrics s (Token bearer) timestamp namespace backend metrics)
              = accepted_between backend 0 (length metrics))
         \<and> (\<forall>j < length metrics.
              backend j = PostRaised \<and> (\<forall>i < j. backend i \<noteq> PostRaised) \<longrightarrow>
              posts (send_metrics s (Token bearer) timestamp namespace backend metrics)
                = build_posts s bearer timestamp namespace (take (Suc j) metrics)
              \<and> returned (send_metrics s (Token bearer) timestamp namespace backend metrics)
                = False)"
proof (intro conjI impI allI)
  assume h: "\<forall>i < length metrics. backend i \<noteq> PostRaised"
  then have h': "\<forall>i < length metrics. backend (length ([]::http_post list) + i) \<noteq> PostRaised"
    by simp
  have each: "send_each s bearer timestamp namespace backend metrics 0 []
              = (False, accepted_between backend 0 (length metrics),
                 build_posts s bearer timestamp namespace metrics)"
    using send_each_no_raise [OF h', of s bearer timestamp namespace 0] by simp
  show "posts (send_metrics s (Token bearer) timestamp namespace backend metrics)
          = build_posts s bearer timestamp namespace metrics"
    using uri by (simp add: send_metrics_def each)
  show "accepted (send_metrics s (Token bearer) timestamp namespace backend metrics)
          = accepted_between backend 0 (length metrics)"
    using uri by (simp add: send_metrics_def each)
next
  fix j
  assume j: "j < length metrics"
    and r: "backend j = PostRaised \<and> (\<forall>i < j. backend i \<noteq> PostRaised)"
  have r1: "backend (length ([]::http_post list) + j) = PostRaised" using r by simp
  have r2: "\<forall>i < j. backend (length ([]::http_post list) + i) \<noteq> PostRaised" using r by simp
  have each: "send_each s bearer timestamp namespace backend metrics 0 []
              = (True, accepted_between backend 0 j,
                 build_posts s bearer timestamp namespace (take (Suc j) metrics))"
    using send_each_raise [OF j r1 r2, of s bearer timestamp namespace 0] by simp
  show "posts (send_metrics s (Token bearer) timestamp namespace backend metrics)
          = build_posts s bearer timestamp namespace (take (Suc j) metrics)"
    using uri by (simp add: send_metrics_def each)
  show "returned (send_metrics s (Token bearer) timestamp namespace backend metrics) = False"
    using uri by (simp add: send_metrics_def each)
qed

theorem send_metrics_status_continues_exception_aborts_witness:
  "map (\<lambda>p. p_metric (h_json p))
     (posts (send_metrics vm_sender (Token ''t'') ''2025-01-01T00:00:00Z'' ''Custom/NGINX''
        (\<lambda>i. if i = 0 then Response 500 else Response 200)
        [(''nginx_connections_active'', 4), (''nginx_http_requests_total'', 1000)]))
   = [''nginx_connections_active'', ''nginx_http_requests_total'']
   \<and> map (\<lambda>p. p_metric (h_json p))
     (posts (send_metrics vm_sender (Token ''t'') ''2025-01-01T00:00:00Z'' ''Custom/NGINX''
        (\<lambda>i. if i = 1 then PostRaised else Response 200)
        [(''a'', 1), (''b'', 2), (''c'', 3)]))
   = [''a'', ''b'']"
proof -
  have a: "\<forall>i < length [(''nginx_connections_active'', 4::rat), (''nginx_http_requests_total'', 1000)].
            (if i = 0 then Response 500 else Response 200) \<noteq> PostRaised"
    by simp
  have b: "(1::nat) < length [(''a'', 1::rat), (''b'', 2), (''c'', 3)]" by simp
  have c: "(if (1::nat) = 1 then PostRaised else Response 200) = PostRaised
           \<and> (\<forall>i < (1::nat). (if i = 1 then PostRaised else Response 200) \<noteq> PostRaised)"
    by simp
  have p1: "posts (send_metrics vm_sender (Token ''t'') ''2025-01-01T00:00:00Z'' ''Custom/NGINX''
        (\<lambda>i. if i = 0 then Response 500 else Response 200)
        [(''nginx_connections_active'', 4), (''nginx_http_requests_total'', 1000)])
      = build_posts vm_sender ''t'' ''2025-01-01T00:00:00Z'' ''Custom/NGINX''
        [(''nginx_connections_active'', 4), (''nginx_http_requests_total'', 1000)]"
    using send_metrics_status_continues_exception_aborts [OF vm_sender_configured,
        THEN conjunct1, THEN mp, OF a] by simp
  have p2: "posts (send_metrics vm_sender (Token ''t'') ''2025-01-01T00:00:00Z'' ''Custom/NGINX''
        (\<lambda>i. if i = 1 then PostRaised else Response 200)
        [(''a'', 1), (''b'', 2), (''c'', 3)])
      = build_posts vm_sender ''t'' ''2025-01-01T00:00:00Z'' ''Custom/NGINX''
          (take (Suc 1) [(''a'', 1), (''b'', 2), (''c'', 3)])"
    using send_metrics_status_continues_exception_aborts [OF vm_sender_configured,
        THEN conjunct2, THEN spec, THEN mp, OF b, THEN mp, OF c] by simp
  show ?thesis
    unfolding p1 p2 by (simp add: build_posts_def build_post_def)
qed

text \<open>
  C3 as stated fails: the POST of the first of two metrics raises, and the second metric
  is never sent.
\<close>

theorem send_metrics_exception_aborts_counterexample:
  "map (\<lambda>p. p_metric (h_json p))
     (posts (send_metrics vm_sender (Token ''t'') ''2025-01-01T00:00:00Z'' ''Custom/NGINX''
        (\<lambda>i. if i = 0 then PostRaised else Response 200)
        [(''nginx_connections_active'', 4), (''nginx_http_requests_total'', 1000)]))
   = [''nginx_connections_active'']"
  by (simp add: send_metrics_def vm_sender_configured build_post_def)

section \<open>Resolving the resource identity\<close>

lemma init_sender_vmss_name:
  "is_vmss (init_sender a b c env imds) \<Longrightarrow> truthy (vmss_name (init_sender a b c env imds))"
  by (cases imds) (auto simp: init_sender_def get_imds_metadata_def Let_def split: if_splits)

lemma init_sender_resource_uri:
  "resource_uri (init_sender a b c env imds)
   = build_resource_uri (subscription_id (init_sender a b c env imds))
       (resource_group (init_sender a b c env imds))
       (resource_name (init_sender a b c env imds))
       (is_vmss (init_sender a b c env imds))
       (vmss_name (init_sender a b c env imds))"
  by (cases imds) (simp_all add: init_sender_def get_imds_metadata_def Let_def)

lemma build_resource_uri_None:
  "(build_resource_uri sub rg rname vmss vname = None)
   = (\<not> truthy sub \<or> \<not> truthy rg \<or> (\<not> (vmss \<and> truthy vname) \<and> \<not> truthy rname))"
  by (auto simp: build_resource_uri_def)

lemma build_resource_uri_truthy:
  "truthy (build_resource_uri sub rg rname vmss vname)
   = (build_resource_uri sub rg rname vmss vname \<noteq> None)"
  by (auto simp: build_resource_uri_def truthy_def)

lemma init_sender_location:
  "location (init_sender a b c env imds)
   = (if truthy (imds_field imds ''location'') then imds_field imds ''location''
      else getenv_default env ''AZURE_REGION'' ''northeurope'')"
  by (cases imds)
     (simp_all add: init_sender_def get_imds_metadata_def imds_field_def py_or_def Let_def
        truthy_def)

lemma init_sender_subscription_id:
  "subscription_id (init_sender a b c env imds)
   = (if truthy a then a
      else if truthy (env ''AZURE_SUBSCRIPTION_ID'') then env ''AZURE_SUBSCRIPTION_ID''
      else (case imds of ImdsFailed \<Rightarrow> env ''AZURE_SUBSCRIPTION_ID''
            | ImdsMetadata metadata \<Rightarrow> json_get metadata ''subscriptionId''))"
  by (cases imds)
     (simp_all add: init_sender_def get_imds_metadata_def py_or_def getenv_def Let_def)

lemma init_sender_resource_group:
  "resource_group (init_sender a b c env imds)
   = (if truthy b then b
      else if truthy (env ''AZURE_RESOURCE_GROUP'') then env ''AZURE_RESOURCE_GROUP''
      else (case imds of ImdsFailed \<Rightarrow> env ''AZURE_RESOURCE_GROUP''
            | ImdsMetadata metadata \<Rightarrow> json_get metadata ''resourceGroupName''))"
  by (cases imds)
     (simp_all add: init_sender_def get_imds_metadata_def py_or_def getenv_def Let_def)

lemma init_sender_resource_name:
  "resource_name (init_sender a b c env imds)
   = (if truthy c then c
      else if truthy (env ''AZURE_RESOURCE_NAME'') then env ''AZURE_RESOURCE_NAME''
      else (case imds of ImdsFailed \<Rightarrow> env ''AZURE_RESOURCE_NAME''
            | ImdsMetadata metadata \<Rightarrow> json_get metadata ''name''))"
  by (cases imds)
     (simp_all add: init_sender_def get_imds_metadata_def py_or_def getenv_def Let_def)

lemma getenv_default_falsy:
  "\<not> truthy (env k) \<Longrightarrow> fmt (py_or (getenv_default env k d) (Some d)) = d"
  by (cases "env k") (auto simp: getenv_default_def py_or_def truthy_def fmt_def)

text \<open>
  C8, as amended: a constructor argument, and after it the environment variable, takes
  precedence over the metadata service's value for the subscription id, the resource
  group and the resource name. For the region it is the other way round: the metadata
  service's location is used when it has one, \<^verbatim>\<open>AZURE_REGION\<close> only otherwise; when
  neither supplies a region the POSTs go to \<^verbatim>\<open>northeurope\<close>.
\<close>

theorem overrides_win_except_region:
  "(truthy a \<longrightarrow> subscription_id (init_sender a b c env imds) = a)
   \<and> (\<not> truthy a \<and> truthy (env ''AZURE_SUBSCRIPTION_ID'') \<longrightarrow>
        subscription_id (init_sender a b c env imds) = env ''AZURE_SUBSCRIPTION_ID'')
   \<and> (truthy b \<longrightarrow> resource_group (init_sender a b c env imds) = b)
   \<and> (\<not> truthy b \<and> truthy (env ''AZURE_RESOURCE_GROUP'') \<longrightarrow>
        resource_group (init_sender a b c env imds) = env ''AZURE_RESOURCE_GROUP'')
   \<and> (truthy c \<longrightarrow> resource_name (init_sender a b c env imds) = c)
   \<and> (\<not> truthy c \<and> truthy (env ''AZURE_RESOURCE_NAME'') \<longrightarrow>
        resource_name (init_sender a b c env imds) = env ''AZURE_RESOURCE_NAME'')
   \<and> (truthy (imds_field imds ''location'') \<longrightarrow>
        location (init_sender a b c env imds) = imds_field imds ''location'')
   \<and> (\<not> truthy (imds_field imds ''location'') \<and> truthy (env ''AZURE_REGION'') \<longrightarrow>
        location (init_sender a b c env imds) = env ''AZURE_REGION'')
   \<and> (\<not> truthy (imds_field imds ''location'') \<and> \<not> truthy (env ''AZURE_REGION'') \<longrightarrow>
        send_region (init_sender a b c env imds) = ''northeurope'')"
proof (intro conjI impI)
  assume "\<not> truthy (imds_field imds ''location'') \<and> truthy (env ''AZURE_REGION'')"
  then show "location (init_sender a b c env imds) = env ''AZURE_REGION''"
    by (cases "env ''AZURE_REGION''")
       (auto simp: init_sender_location getenv_default_def truthy_def)
next
  assume "\<not> truthy (imds_field imds ''location'') \<and> \<not> truthy (env ''AZURE_REGION'')"
  then show "send_region (init_sender a b c env imds) = ''northeurope''"
    using getenv_default_falsy [of env "''AZURE_REGION''" "''northeurope''"]
    by (simp add: send_region_def init_sender_location)
qed (simp_all add: init_sender_subscription_id init_sender_resource_group
      init_sender_resource_name init_sender_location)

theorem overrides_win_except_region_witness:
  "subscription_id (init_sender (Some ''sub-arg'') None None
       [''AZURE_SUBSCRIPTION_ID'' \<mapsto> ''sub-env'', ''AZURE_RESOURCE_GROUP'' \<mapsto> ''rg-env'']
       (ImdsMetadata [''subscriptionId'' \<mapsto> JString ''sub-imds'',
                      ''resourceGroupName'' \<mapsto> JString ''rg-imds'',
                      ''name'' \<mapsto> JString ''vm-imds'']))
     = Some ''sub-arg''
   \<and> resource_group (init_sender (Some ''sub-arg'') None None
       [''AZURE_SUBSCRIPTION_ID'' \<mapsto> ''sub-env'', ''AZURE_RESOURCE_GROUP'' \<mapsto> ''rg-env'']
       (ImdsMetadata [''subscriptionId'' \<mapsto> JString ''sub-imds'',
                      ''resourceGroupName'' \<mapsto> JString ''rg-imds'',
                      ''name'' \<mapsto> JString ''vm-imds'']))
     = Some ''rg-env''
   \<and> send_region (init_sender (Some ''sub-arg'') None None
       [''AZURE_SUBSCRIPTION_ID'' \<mapsto> ''sub-env'', ''AZURE_RESOURCE_GROUP'' \<mapsto> ''rg-env'']
       (ImdsMetadata [''subscriptionId'' \<mapsto> JString ''sub-imds'',
                      ''resourceGroupName'' \<mapsto> JString ''rg-imds'',
                      ''name'' \<mapsto> JString ''vm-imds'']))
     = ''northeurope''"
  using overrides_win_except_region [of "Some ''sub-arg''" None None
      "[''AZURE_SUBSCRIPTION_ID'' \<mapsto> ''sub-env'', ''AZURE_RESOURCE_GROUP'' \<mapsto> ''rg-env'']"
      "ImdsMetadata [''subscriptionId'' \<mapsto> JString ''sub-imds'',
                      ''resourceGroupName'' \<mapsto> JString ''rg-imds'',
                      ''name'' \<mapsto> JString ''vm-imds'']"]
  by (simp add: truthy_def imds_field_def json_get_def)

text \<open>
  C8 as stated fails: with \<^verbatim>\<open>AZURE_REGION=westeurope\<close> and a metadata location
  \<^verbatim>\<open>eastus\<close> the sender uses \<^verbatim>\<open>eastus\<close>.
\<close>

theorem region_override_loses_counterexample:
  "location (init_sender None None None [''AZURE_REGION'' \<mapsto> ''westeurope'']
       (ImdsMetadata [''subscriptionId'' \<mapsto> JString ''sub'',
                      ''resourceGroupName'' \<mapsto> JString ''rg'',
                      ''name'' \<mapsto> JString ''vm1'', ''location'' \<mapsto> JString ''eastus'']))
     = Some ''eastus''
   \<and> send_region (init_sender None None None [''AZURE_REGION'' \<mapsto> ''westeurope'']
       (ImdsMetadata [''subscriptionId'' \<mapsto> JString ''sub'',
                      ''resourceGroupName'' \<mapsto> JString ''rg'',
                      ''name'' \<mapsto> JString ''vm1'', ''location'' \<mapsto> JString ''eastus'']))
     = ''eastus''"
  by (simp add: send_region_def init_sender_location imds_field_def json_get_def truthy_def
      py_or_def fmt_def)

subsection \<open>The resource URI and the sources of the identity\<close>

lemma truthy_py_or: "truthy (py_or x y) = (truthy x \<or> truthy y)"
  by (simp add: py_or_def)

lemma init_sender_is_vmss:
  "is_vmss (init_sender a b c env imds) = truthy (imds_field imds ''vmScaleSetName'')"
  by (cases imds)
     (simp_all add: init_sender_def get_imds_metadata_def imds_field_def Let_def truthy_def)

lemma init_sender_subscription_truthy:
  "truthy (subscription_id (init_sender a b c env imds))
   = (truthy a \<or> truthy (env ''AZURE_SUBSCRIPTION_ID'')
      \<or> truthy (imds_field imds ''subscriptionId''))"
  by (cases imds) (auto simp: init_sender_subscription_id imds_field_def truthy_def)

lemma init_sender_group_truthy:
  "truthy (resource_group (init_sender a b c env imds))
   = (truthy b \<or> truthy (env ''AZURE_RESOURCE_GROUP'')
      \<or> truthy (imds_field imds ''resourceGroupName''))"
  by (cases imds) (auto simp: init_sender_resource_group imds_field_def truthy_def)

lemma init_sender_name_truthy:
  "truthy (resource_name (init_sender a b c env imds))
   = (truthy c \<or> truthy (env ''AZURE_RESOURCE_NAME'')
      \<or> truthy (imds_field imds ''name''))"
  by (cases imds) (auto simp: init_sender_resource_name imds_field_def truthy_def)

lemma init_sender_uri_none_fields:
  "(resource_uri (init_sender a b c env imds) = None)
     = (\<not> truthy (subscription_id (init_sender a b c env imds))
        \<or> \<not> truthy (resource_group (init_sender a b c env imds))
        \<or> (\<not> is_vmss (init_sender a b c env imds)
            \<and> \<not> truthy (resource_name (init_sender a b c env imds))))"
  using init_sender_vmss_name [of a b c env imds]
  by (auto simp: init_sender_resource_uri [of a b c env imds] build_resource_uri_None)

text \<open>
  C9: the sender built by \<^verbatim>\<open>__init__\<close> has no resource URI exactly when, with the
  constructor arguments, the environment and the metadata service all consulted, none
  of them supplies a subscription id, or none supplies a resource group, or the
  metadata names no scale set and none of them supplies a resource name (a value that
  is \<^verbatim>\<open>None\<close>, null or empty supplies nothing). In terms of the sender's own fields:
  exactly when its subscription id or resource group is missing, or it is not a
  scale-set member and its resource name is missing. Without a resource URI
  \<^verbatim>\<open>send_metrics\<close> returns \<^verbatim>\<open>False\<close> at once: no token is requested and nothing is
  POSTed.
\<close>

theorem resource_uri_none_iff_sources_and_short_circuit:
  "(resource_uri (init_sender a b c env imds) = None)
     = (\<not> (truthy a \<or> truthy (env ''AZURE_SUBSCRIPTION_ID'')
            \<or> truthy (imds_field imds ''subscriptionId''))
        \<or> \<not> (truthy b \<or> truthy (env ''AZURE_RESOURCE_GROUP'')
               \<or> truthy (imds_field imds ''resourceGroupName''))
        \<or> (\<not> truthy (imds_field imds ''vmScaleSetName'')
            \<and> \<not> (truthy c \<or> truthy (env ''AZURE_RESOURCE_NAME'')
                   \<or> truthy (imds_field imds ''name''))))
   \<and> (resource_uri (init_sender a b c env imds) = None)
     = (\<not> truthy (subscription_id (init_sender a b c env imds))
        \<or> \<not> truthy (resource_group (init_sender a b c env imds))
        \<or> (\<not> is_vmss (init_sender a b c env imds)
            \<and> \<not> truthy (resource_name (init_sender a b c env imds))))
   \<and> (resource_uri (init_sender a b c env imds) = None \<longrightarrow>
        send_metrics (init_sender a b c env imds) tok timestamp namespace backend metrics
          = \<lparr>returned = False, token_requests = 0, posts = [], accepted = 0\<rparr>)"
proof (intro conjI impI)
  show "(resource_uri (init_sender a b c env imds) = None)
     = (\<not> truthy (subscription_id (init_sender a b c env imds))
        \<or> \<not> truthy (resource_group (init_sender a b c env imds))
        \<or> (\<not> is_vmss (init_sender a b c env imds)
            \<and> \<not> truthy (resource_name (init_sender a b c env imds))))"
    by (rule init_sender_uri_none_fields)
  then show "(resource_uri (init_sender a b c env imds) = None)
     = (\<not> (truthy a \<or> truthy (env ''AZURE_SUBSCRIPTION_ID'')
            \<or> truthy (imds_field imds ''subscriptionId''))
        \<or> \<not> (truthy b \<or> truthy (env ''AZURE_RESOURCE_GROUP'')
               \<or> truthy (imds_field imds ''resourceGroupName''))
        \<or> (\<not> truthy (imds_field imds ''vmScaleSetName'')
            \<and> \<not> (truthy c \<or> truthy (env ''AZURE_RESOURCE_NAME'')
                   \<or> truthy (imds_field imds ''name''))))"
    unfolding init_sender_subscription_truthy init_sender_group_truthy
      init_sender_name_truthy init_sender_is_vmss .
next
  assume "resource_uri (init_sender a b c env imds) = None"
  then show "send_metrics (init_sender a b c env imds) tok timestamp namespace backend metrics
          = \<lparr>returned = False, token_requests = 0, posts = [], accepted = 0\<rparr>"
    by (simp add: send_metrics_def truthy_def)
qed

theorem resource_uri_none_iff_sources_and_short_circuit_witness:
  "resource_uri (init_sender None None None [''AZURE_SUBSCRIPTION_ID'' \<mapsto> ''sub-env'']
       (ImdsMetadata [''resourceGroupName'' \<mapsto> JString ''rg-imds'', ''name'' \<mapsto> JNull]))
     = None
   \<and> send_metrics
        (init_sender None None None [''AZURE_SUBSCRIPTION_ID'' \<mapsto> ''sub-env'']
          (ImdsMetadata [''resourceGroupName'' \<mapsto> JString ''rg-imds'', ''name'' \<mapsto> JNull]))
        (Token ''t'') ''2025-01-01T00:00:00Z'' ''Custom/NGINX'' (\<lambda>i. Response 200)
        [(''nginx_connections_active'', 4)]
      = \<lparr>returned = False, token_requests = 0, posts = [], accepted = 0\<rparr>
   \<and> resource_uri (init_sender None None None [''AZURE_SUBSCRIPTION_ID'' \<mapsto> ''sub-env'']
       (ImdsMetadata [''resourceGroupName'' \<mapsto> JString ''rg-imds'', ''name'' \<mapsto> JNull,
                      ''vmScaleSetName'' \<mapsto> JString ''web-fleet'']))
     \<noteq> None
   \<and> resource_uri (init_sender None None (Some ''vm1'')
       [''AZURE_SUBSCRIPTION_ID'' \<mapsto> ''sub-env'']
       (ImdsMetadata [''resourceGroupName'' \<mapsto> JString ''rg-imds'', ''name'' \<mapsto> JNull]))
     \<noteq> None"
proof -
  have u1: "resource_uri (init_sender None None None [''AZURE_SUBSCRIPTION_ID'' \<mapsto> ''sub-env'']
       (ImdsMetadata [''resourceGroupName'' \<mapsto> JString ''rg-imds'', ''name'' \<mapsto> JNull]))
     = None"
    using resource_uri_none_iff_sources_and_short_circuit [THEN conjunct1,
        of None None None "[''AZURE_SUBSCRIPTION_ID'' \<mapsto> ''sub-env'']"
          "ImdsMetadata [''resourceGroupName'' \<mapsto> JString ''rg-imds'', ''name'' \<mapsto> JNull]"]
    by (simp add: truthy_def imds_field_def json_get_def)
  have u2: "resource_uri (init_sender None None None [''AZURE_SUBSCRIPTION_ID'' \<mapsto> ''sub-env'']
       (ImdsMetadata [''resourceGroupName'' \<mapsto> JString ''rg-imds'', ''name'' \<mapsto> JNull,
                      ''vmScaleSetName'' \<mapsto> JString ''web-fleet'']))
     \<noteq> None"
    using resource_uri_none_iff_sources_and_short_circuit [THEN conjunct1,
        of None None None "[''AZURE_SUBSCRIPTION_ID'' \<mapsto> ''sub-env'']"
          "ImdsMetadata [''resourceGroupName'' \<mapsto> JString ''rg-imds'', ''name'' \<mapsto> JNull,
                      ''vmScaleSetName'' \<mapsto> JString ''web-fleet'']"]
    by (simp add: truthy_def imds_field_def json_get_def)
  have u3: "resource_uri (init_sender None None (Some ''vm1'')
       [''AZURE_SUBSCRIPTION_ID'' \<mapsto> ''sub-env'']
       (ImdsMetadata [''resourceGroupName'' \<mapsto> JString ''rg-imds'', ''name'' \<mapsto> JNull]))
     \<noteq> None"
    using resource_uri_none_iff_sources_and_short_circuit [THEN conjunct1,
        of None None "Some ''vm1''" "[''AZURE_SUBSCRIPTION_ID'' \<mapsto> ''sub-env'']"
          "ImdsMetadata [''resourceGroupName'' \<mapsto> JString ''rg-imds'', ''name'' \<mapsto> JNull]"]
    by (simp add: truthy_def imds_field_def json_get_def)
  show ?thesis
    using u1 u2 u3
      resource_uri_none_iff_sources_and_short_circuit [THEN conjunct2, THEN conjunct2,
        THEN mp, OF u1]
    by simp
qed

section \<open>Deriving the request rate\<close>

lemma request_rate_new: "request_rate new_scraper v t = Inr None"
  by (simp add: request_rate_def new_scraper_def)

lemma request_rate_stored:
  "request_rate \<lparr>last_requests = Some lv, last_timestamp = Some lt\<rparr> v t
   = Inr (if lt < t then Some (max 0 ((v - lv) / (t - lt))) else None)"
  by (simp add: request_rate_def truediv_def Let_def)

lemma request_rate_total: "\<exists>rate. request_rate st v t = Inr rate"
  by (auto simp: request_rate_def truediv_def Let_def split: option.splits)

lemma derive_total:
  "\<exists>rate. derive st v t t'
     = Inr (rate, \<lparr>last_requests = Some v, last_timestamp = Some t'\<rparr>)
     \<and> request_rate st v t = Inr rate"
  using request_rate_total [of st v t] by (auto simp: derive_def)

lemma derive_state_snoc:
  "derive_state st (obs @ [ob])
   = \<lparr>last_requests = Some (o_requests ob), last_timestamp = Some (o_store_time ob)\<rparr>"
proof (induction st obs rule: derive_state.induct)
  case (1 st)
  show ?case
    using derive_total [of st "o_requests ob" "o_current_time ob" "o_store_time ob"] by auto
next
  case (2 st a rest)
  then show ?case
    using derive_total [of st "o_requests a" "o_current_time a" "o_store_time a"] by auto
qed

lemma derive_all_nth:
  "i < length obs \<Longrightarrow>
   derive_all st obs ! i
   = request_rate (derive_state st (take i obs)) (o_requests (obs ! i))
       (o_current_time (obs ! i))"
proof (induction st obs arbitrary: i rule: derive_all.induct)
  case (1 st)
  then show ?case by simp
next
  case (2 st ob rest)
  obtain rate where d: "derive st (o_requests ob) (o_current_time ob) (o_store_time ob)
      = Inr (rate, \<lparr>last_requests = Some (o_requests ob),
                    last_timestamp = Some (o_store_time ob)\<rparr>)"
    and r: "request_rate st (o_requests ob) (o_current_time ob) = Inr rate"
    using derive_total [of st "o_requests ob" "o_current_time ob" "o_store_time ob"] by auto
  show ?case
  proof (cases i)
    case 0
    then show ?thesis by (simp add: d r)
  next
    case (Suc k)
    then have "k < length rest" using "2.prems" by simp
    then show ?thesis using "2.IH"(2) [OF d refl, of k] Suc by (simp add: d)
  qed
qed

lemma derive_all_Suc:
  assumes i: "i < length obs"
  shows "derive_all new_scraper (ob0 # obs) ! Suc i
         = Inr (if o_store_time ((ob0 # obs) ! i) < o_current_time (obs ! i)
                then Some (max 0 ((o_requests (obs ! i) - o_requests ((ob0 # obs) ! i))
                                  / (o_current_time (obs ! i) - o_store_time ((ob0 # obs) ! i))))
                else None)"
proof -
  let ?all = "ob0 # obs"
  have il: "i < length ?all" using i by simp
  have tk: "take (Suc i) ?all = take i ?all @ [?all ! i]"
    by (rule take_Suc_conv_app_nth [OF il])
  have st: "derive_state new_scraper (take (Suc i) ?all)
            = \<lparr>last_requests = Some (o_requests (?all ! i)),
               last_timestamp = Some (o_store_time (?all ! i))\<rparr>"
    unfolding tk by (rule derive_state_snoc)
  have "derive_all new_scraper ?all ! Suc i
        = request_rate (derive_state new_scraper (take (Suc i) ?all))
            (o_requests (?all ! Suc i)) (o_current_time (?all ! Suc i))"
    using derive_all_nth [of "Suc i" ?all new_scraper] i by simp
  then show ?thesis unfolding st request_rate_stored by simp
qed

text \<open>
  C6, as amended: on a fresh scraper the rate block yields no rate for the first
  observation. For every later observation it yields a rate exactly when its clock
  reading is later than the timestamp stored by the call before, the rate then being
  the counter difference over the elapsed time, clamped at zero, hence non-negative
  also when the counter went down; when the clock has not advanced it yields none.
  Every run of the block stores the current counter value and the current (second)
  clock reading, whatever the rate was.
\<close>

theorem derive_first_none_then_nonnegative:
  "derive_all new_scraper (ob0 # obs) ! 0 = Inr None
   \<and> (\<forall>i < length obs.
        derive_all new_scraper (ob0 # obs) ! Suc i
        = Inr (if o_store_time ((ob0 # obs) ! i) < o_current_time (obs ! i)
               then Some (max 0 ((o_requests (obs ! i) - o_requests ((ob0 # obs) ! i))
                                 / (o_current_time (obs ! i) - o_store_time ((ob0 # obs) ! i))))
               else None)
        \<and> (\<forall>r. derive_all new_scraper (ob0 # obs) ! Suc i = Inr (Some r) \<longrightarrow> 0 \<le> r))
   \<and> (\<exists>rate. derive st v t t'
         = Inr (rate, \<lparr>last_requests = Some v, last_timestamp = Some t'\<rparr>))"
proof (intro conjI allI impI)
  show "derive_all new_scraper (ob0 # obs) ! 0 = Inr None"
    using derive_total [of new_scraper "o_requests ob0" "o_current_time ob0" "o_store_time ob0"]
    by (auto simp: request_rate_new)
  show "\<exists>rate. derive st v t t'
         = Inr (rate, \<lparr>last_requests = Some v, last_timestamp = Some t'\<rparr>)"
    using derive_total [of st v t t'] by auto
next
  fix i assume i: "i < length obs"
  show eq: "derive_all new_scraper (ob0 # obs) ! Suc i
        = Inr (if o_store_time ((ob0 # obs) ! i) < o_current_time (obs ! i)
               then Some (max 0 ((o_requests (obs ! i) - o_requests ((ob0 # obs) ! i))
                                 / (o_current_time (obs ! i) - o_store_time ((ob0 # obs) ! i))))
               else None)"
    by (rule derive_all_Suc [OF i])
  fix r assume "derive_all new_scraper (ob0 # obs) ! Suc i = Inr (Some r)"
  then show "0 \<le> r" unfolding eq by (auto split: if_splits)
qed

theorem derive_first_none_then_nonnegative_witness:
  "derive_all new_scraper
     [\<lparr>o_requests = 1000, o_current_time = 100, o_store_time = 100\<rparr>,
      \<lparr>o_requests = 1050, o_current_time = 110, o_store_time = 110\<rparr>,
      \<lparr>o_requests = 7, o_current_time = 120, o_store_time = 120\<rparr>]
   = [Inr None, Inr (Some 5), Inr (Some 0)]"
proof -
  have l: "(0::nat) < length [\<lparr>o_requests = 1050, o_current_time = 110, o_store_time = 110\<rparr>,
      \<lparr>o_requests = 7, o_current_time = 120, o_store_time = 120\<rparr>]" by simp
  have "derive_all new_scraper
     [\<lparr>o_requests = 1000, o_current_time = 100, o_store_time = 100\<rparr>,
      \<lparr>o_requests = 1050, o_current_time = 110, o_store_time = 110\<rparr>,
      \<lparr>o_requests = 7, o_current_time = 120, o_store_time = 120\<rparr>] ! Suc 0 = Inr (Some 5)"
    using derive_first_none_then_nonnegative [THEN conjunct2, THEN conjunct1, THEN spec,
        THEN mp, OF l, THEN conjunct1,
        of "\<lparr>o_requests = 1000, o_current_time = 100, o_store_time = 100\<rparr>"]
    by simp
  then show ?thesis
    by (simp add: derive_def request_rate_def truediv_def new_scraper_def Let_def)
qed

text \<open>
  C6 as stated fails: a second observation whose clock reading equals the stored
  timestamp gets no rate.
\<close>

theorem derive_no_rate_on_equal_clock_counterexample:
  "derive_all new_scraper
     [\<lparr>o_requests = 1000, o_current_time = 100, o_store_time = 100\<rparr>,
      \<lparr>o_requests = 1050, o_current_time = 100, o_store_time = 101\<rparr>]
   = [Inr None, Inr None]"
  by (simp add: derive_def request_rate_def truediv_def new_scraper_def Let_def)

text \<open>
  C7, as amended: the rate block never raises \<^verbatim>\<open>ZeroDivisionError\<close>. When the elapsed
  time since the stored timestamp is zero or negative it yields no rate; for every
  positive elapsed time, however short, it yields the clamped quotient: there is no
  minimum interval.
\<close>

theorem request_rate_guard:
  "(\<exists>rate. request_rate st v t = Inr rate)
   \<and> (\<forall>lt. last_timestamp st = Some lt \<and> t - lt \<le> 0 \<longrightarrow> request_rate st v t = Inr None)
   \<and> (\<forall>lv lt. last_requests st = Some lv \<and> last_timestamp st = Some lt \<and> 0 < t - lt \<longrightarrow>
        request_rate st v t = Inr (Some (max 0 ((v - lv) / (t - lt)))))"
  by (auto simp: request_rate_def truediv_def Let_def split: option.splits)

theorem request_rate_guard_witness:
  "request_rate \<lparr>last_requests = Some 1000, last_timestamp = Some 100\<rparr> 1050 100 = Inr None
   \<and> request_rate \<lparr>last_requests = Some 1000, last_timestamp = Some 100\<rparr> 1050 110
     = Inr (Some 5)"
  using request_rate_guard [of "\<lparr>last_requests = Some 1000, last_timestamp = Some 100\<rparr>" 1050 100]
    request_rate_guard [of "\<lparr>last_requests = Some 1000, last_timestamp = Some 100\<rparr>" 1050 110]
  by simp

text \<open>
  C7 as stated fails: half a millisecond after the stored timestamp one more request
  gives a rate of 2000 requests per second.
\<close>

theorem request_rate_below_one_millisecond_counterexample:
  "request_rate \<lparr>last_requests = Some 1000, last_timestamp = Some 100\<rparr> 1001 (100 + 1 / 2000)
   = Inr (Some 2000)"
  by (simp add: request_rate_def truediv_def Let_def)

section \<open>Synthetic keys of labelled samples\<close>

lemma parsed_single:
  "parsed (Scraped [(s, t)])
   = [(if s_labels s = [] then s_name s else simplified_name (s_name s) (s_labels s),
       s_value s)]"
  by (simp add: parsed_def scrape_metrics_def)

text \<open>
  C4 as stated fails: the same two labels in the other order give another key.
\<close>

theorem label_order_changes_key_counterexample:
  "map fst (parsed (Scraped
      [(\<lparr>s_name = ''nginx_up'', s_value = 1, s_labels = [(''host'', ''h1''), (''zone'', ''a'')]\<rparr>,
        10)]))
   = [''nginx_up_host_h1_zone_a'']
   \<and> map fst (parsed (Scraped
      [(\<lparr>s_name = ''nginx_up'', s_value = 1, s_labels = [(''zone'', ''a''), (''host'', ''h1'')]\<rparr>,
        10)]))
   = [''nginx_up_zone_a_host_h1'']"
  by (simp add: parsed_single simplified_name_def label_suffix_def)

text \<open>
  C1 fails on the code: \<^verbatim>\<open>scrape_metrics\<close> keys its dict by the bare metric name, so of
  two samples of one metric with the label sets \<open>zone=a\<close> and \<open>zone=b\<close> only the
  last is left when \<^verbatim>\<open>get_nginx_key_metrics\<close> builds the labelled keys.
\<close>

theorem same_name_samples_collapse:
  "parsed (Scraped
      [(\<lparr>s_name = ''nginx_upstream_requests'', s_value = 1, s_labels = [(''zone'', ''a'')]\<rparr>, 10),
       (\<lparr>s_name = ''nginx_upstream_requests'', s_value = 2, s_labels = [(''zone'', ''b'')]\<rparr>, 10)])
   = [(''nginx_upstream_requests_zone_b'', 2)]
   \<and> get_nginx_key_metrics new_scraper (Scraped
      [(\<lparr>s_name = ''nginx_upstream_requests'', s_value = 1, s_labels = [(''zone'', ''a'')]\<rparr>, 10),
       (\<lparr>s_name = ''nginx_upstream_requests'', s_value = 2, s_labels = [(''zone'', ''b'')]\<rparr>, 10)])
      11 11
   = Inr ([(''nginx_upstream_requests_zone_b'', 2)],
          \<lparr>last_requests = Some 0, last_timestamp = Some 11\<rparr>)"
  by (simp add: parsed_def get_nginx_key_metrics_def scrape_metrics_def simplified_name_def
      label_suffix_def derive_def request_rate_def new_scraper_def dict_get_def)

subsection \<open>The synthetic key follows the order of the labels\<close>

lemma split_at_first_underscore:
  "no_underscore p \<Longrightarrow> no_underscore q \<Longrightarrow> p @ CHR ''_'' # a = q @ CHR ''_'' # b
   \<Longrightarrow> p = q \<and> a = b"
proof (induction p arbitrary: q)
  case Nil
  then show ?case by (cases q) (auto simp: no_underscore_def)
next
  case (Cons x p)
  show ?case
  proof (cases q)
    case Nil
    then show ?thesis using Cons.prems by (auto simp: no_underscore_def)
  next
    case (Cons y q')
    have "no_underscore p" "no_underscore q'" "p @ CHR ''_'' # a = q' @ CHR ''_'' # b" "x = y"
      using Cons.prems Cons by (auto simp: no_underscore_def)
    then show ?thesis using Cons.IH [of q'] Cons by simp
  qed
qed

lemma label_suffix_Cons:
  "label_suffix ((k, v) # rest)
   = k @ CHR ''_'' # v @ (if rest = [] then [] else CHR ''_'' # label_suffix rest)"
  by (cases rest) (auto simp: label_suffix_def)

lemma label_suffix_inj:
  "\<forall>(k, v) \<in> set l1 \<union> set l2. no_underscore k \<and> no_underscore v \<Longrightarrow>
   l1 \<noteq> [] \<Longrightarrow> l2 \<noteq> [] \<Longrightarrow> label_suffix l1 = label_suffix l2 \<Longrightarrow> l1 = l2"
proof (induction l1 arbitrary: l2)
  case Nil
  then show ?case by simp
next
  case (Cons p r1)
  obtain k v where p: "p = (k, v)" by (cases p)
  obtain q r2 where l2: "l2 = q # r2" using Cons.prems(3) by (cases l2) auto
  obtain k' v' where q: "q = (k', v')" by (cases q)
  have nk: "no_underscore k" "no_underscore v" "no_underscore k'" "no_underscore v'"
    using Cons.prems(1) p q l2 by auto
  have rest: "\<forall>(k, v) \<in> set r1 \<union> set r2. no_underscore k \<and> no_underscore v"
    using Cons.prems(1) l2 by auto
  let ?t1 = "if r1 = [] then [] else CHR ''_'' # label_suffix r1"
  let ?t2 = "if r2 = [] then [] else CHR ''_'' # label_suffix r2"
  have eq: "k @ CHR ''_'' # (v @ ?t1) = k' @ CHR ''_'' # (v' @ ?t2)"
    using Cons.prems(4) unfolding p q l2 label_suffix_Cons by simp
  have kk: "k = k'" and tails: "v @ ?t1 = v' @ ?t2"
    using split_at_first_underscore [OF nk(1) nk(3) eq] by simp_all
  show ?case
  proof (cases "r1 = []")
    case True
    show ?thesis
    proof (cases "r2 = []")
      case True
      with \<open>r1 = []\<close> tails kk show ?thesis by (simp add: p q l2)
    next
      case False
      then have "v = v' @ CHR ''_'' # label_suffix r2" using tails \<open>r1 = []\<close> by simp
      then have "CHR ''_'' \<in> set v" by simp
      then show ?thesis using nk(2) by (simp add: no_underscore_def)
    qed
  next
    case False
    show ?thesis
    proof (cases "r2 = []")
      case True
      then have "v' = v @ CHR ''_'' # label_suffix r1" using tails \<open>r1 \<noteq> []\<close> by simp
      then have "CHR ''_'' \<in> set v'" by simp
      then show ?thesis using nk(4) by (simp add: no_underscore_def)
    next
      case r2: False
      have "v @ CHR ''_'' # label_suffix r1 = v' @ CHR ''_'' # label_suffix r2"
        using tails False r2 by simp
      then have vv: "v = v'" and s: "label_suffix r1 = label_suffix r2"
        using split_at_first_underscore [OF nk(2) nk(4)] by simp_all
      have "r1 = r2" using Cons.IH [OF rest False r2 s] .
      then show ?thesis using kk vv by (simp add: p q l2)
    qed
  qed
qed

text \<open>
  C4, as amended: for two samples with the same metric name, whose label keys and values
  contain no underscore, the parser gives both the same synthetic key exactly when they
  carry the same labels in the same order. The key lists the labels in the order in
  which the sample carries them and nothing sorts them: the same label set in another
  order gets another key.
\<close>

theorem same_key_iff_same_label_sequence:
  assumes name: "s_name s1 = s_name s2"
    and nu: "\<forall>(k, v) \<in> set (s_labels s1) \<union> set (s_labels s2).
               no_underscore k \<and> no_underscore v"
  shows "(map fst (parsed (Scraped [(s1, t1)])) = map fst (parsed (Scraped [(s2, t2)])))
         = (s_labels s1 = s_labels s2)"
proof (cases "s_labels s1 = []")
  case e1: True
  show ?thesis
  proof (cases "s_labels s2 = []")
    case True
    with e1 name show ?thesis by (simp add: parsed_single)
  next
    case False
    with e1 name show ?thesis by (auto simp: parsed_single simplified_name_def)
  qed
next
  case n1: False
  show ?thesis
  proof (cases "s_labels s2 = []")
    case True
    with n1 name show ?thesis by (auto simp: parsed_single simplified_name_def)
  next
    case False
    have "(label_suffix (s_labels s1) = label_suffix (s_labels s2))
          = (s_labels s1 = s_labels s2)"
      using label_suffix_inj [OF nu n1 False] by auto
    with n1 False name show ?thesis by (simp add: parsed_single simplified_name_def)
  qed
qed

theorem same_key_iff_same_label_sequence_witness:
  "map fst (parsed (Scraped
      [(\<lparr>s_name = ''nginx_up'', s_value = 1, s_labels = [(''host'', ''h1''), (''zone'', ''a'')]\<rparr>,
        10)]))
   = map fst (parsed (Scraped
      [(\<lparr>s_name = ''nginx_up'', s_value = 2, s_labels = [(''host'', ''h1''), (''zone'', ''a'')]\<rparr>,
        20)]))
   \<and> map fst (parsed (Scraped
      [(\<lparr>s_name = ''nginx_up'', s_value = 1, s_labels = [(''host'', ''h1''), (''zone'', ''a'')]\<rparr>,
        10)]))
   \<noteq> map fst (parsed (Scraped
      [(\<lparr>s_name = ''nginx_up'', s_value = 1, s_labels = [(''zone'', ''a''), (''host'', ''h1'')]\<rparr>,
        10)]))"
  using same_key_iff_same_label_sequence
    [of "\<lparr>s_name = ''nginx_up'', s_value = 1, s_labels = [(''host'', ''h1''), (''zone'', ''a'')]\<rparr>"
        "\<lparr>s_name = ''nginx_up'', s_value = 2, s_labels = [(''host'', ''h1''), (''zone'', ''a'')]\<rparr>"
        10 20]
    same_key_iff_same_label_sequence
    [of "\<lparr>s_name = ''nginx_up'', s_value = 1, s_labels = [(''host'', ''h1''), (''zone'', ''a'')]\<rparr>"
        "\<lparr>s_name = ''nginx_up'', s_value = 1, s_labels = [(''zone'', ''a''), (''host'', ''h1'')]\<rparr>"
        10 10]
  by (simp add: no_underscore_def)

section \<open>The monitoring loop\<close>

lemma failing_cycle_fails: "collect_and_send_metrics st s failing_cycle = (False, st)"
  by (simp add: collect_and_send_metrics_def failing_cycle_def get_nginx_key_metrics_def
      scrape_metrics_def)

lemma vm_sender_healthy: "monitor_health_check True vm_sender (Token ''t'')"
  by (simp add: monitor_health_check_def sender_health_check_def vm_sender_configured)

text \<open>
  C2 fails on the code: after five failed cycles in a row the loop is left (the sixth
  recorded pass is never run), but \<^verbatim>\<open>run\<close> then returns normally and the process ends
  with exit status 0.
\<close>

theorem five_failures_exit_status_zero:
  "run True (Token ''t'') vm_sender new_scraper
     [failing_cycle, failing_cycle, failing_cycle, failing_cycle, failing_cycle, failing_cycle]
   = \<lparr>r_end = Returned, r_cycles = 5, r_failures = 5\<rparr>
   \<and> main (Continuous
        [failing_cycle, failing_cycle, failing_cycle, failing_cycle, failing_cycle, failing_cycle])
        True (Token ''t'') vm_sender
     = Some 0"
  by (simp add: main_def run_def vm_sender_healthy failing_cycle_fails
      max_consecutive_failures_def)
     (simp add: failing_cycle_def)

text \<open>
  The \<^verbatim>\<open>except Exception\<close> branch of \<^verbatim>\<open>run\<close> increments the counter without comparing
  it with the maximum: here the counter reaches 5 after four passes and a fifth pass
  still runs.
\<close>

lemma exception_reaches_threshold_unchecked:
  "run True (Token ''t'') vm_sender new_scraper
     [failing_cycle, failing_cycle, failing_cycle, failing_cycle\<lparr>c_fault := WaitRaised\<rparr>,
      failing_cycle, failing_cycle]
   = \<lparr>r_end = Returned, r_cycles = 5, r_failures = 6\<rparr>"
  by (simp add: run_def vm_sender_healthy collect_and_send_metrics_def
      get_nginx_key_metrics_def scrape_metrics_def max_consecutive_failures_def
      failing_cycle_def)

section \<open>Forwarding an empty batch\<close>

lemma send_metrics_empty:
  "returned (send_metrics s tok timestamp namespace backend []) = False"
  by (simp add: send_metrics_def split: token_result.split)

lemma get_nginx_key_metrics_empty_scrape:
  "scrape_metrics inp = [] \<Longrightarrow> get_nginx_key_metrics st inp t t' = Inr ([], st)"
  by (simp add: get_nginx_key_metrics_def)

lemma collect_is_send_result:
  assumes "c_fault e \<noteq> CollectRaised"
    and "get_nginx_key_metrics st (c_scrape e) (c_current_time e) (c_store_time e)
         = Inr (metrics, st')"
  shows "collect_and_send_metrics st s e
         = (returned (send_metrics s (c_token e) (c_timestamp e) ''Custom/NGINX''
                        (c_backend e) metrics), st')"
  using assms by (simp add: collect_and_send_metrics_def send_metrics_empty)

lemma collect_empty_scrape:
  "scrape_metrics (c_scrape e) = [] \<Longrightarrow> fst (collect_and_send_metrics st s e) = False"
  by (simp add: collect_and_send_metrics_def get_nginx_key_metrics_empty_scrape)

lemma run_loop_failure_at_threshold:
  assumes "\<not> fst (collect_and_send_metrics st s e)"
    and "max_consecutive_failures \<le> n + 1"
  shows "run_loop s st n k (e # es)
         = \<lparr>r_end = Returned, r_cycles = k + 1, r_failures = n + 1\<rparr>"
  using assms by (cases "collect_and_send_metrics st s e") simp

lemma run_loop_failure_below_threshold:
  assumes "\<not> fst (collect_and_send_metrics st s e)"
    and "n + 1 < max_consecutive_failures"
    and "c_fault e = NoFault" and "\<not> c_signal e"
  shows "run_loop s st n k (e # es)
         = run_loop s (snd (collect_and_send_metrics st s e)) (n + 1) (k + 1) es"
  using assms by (cases "collect_and_send_metrics st s e") simp

text \<open>
  C10: forwarding an empty batch of metrics returns failure, and the cycle counts as a
  failure. Whatever the sender's configuration, the token outcome and the backend,
  \<^verbatim>\<open>send_metrics\<close> on the empty dict returns \<^verbatim>\<open>False\<close> and makes no POST. The result of
  \<^verbatim>\<open>collect_and_send_metrics\<close> is what \<^verbatim>\<open>send_metrics\<close> returns on the metrics of the
  cycle, the empty dict included (which the monitor answers with \<^verbatim>\<open>False\<close> itself,
  without the call); so a cycle whose scrape holds nothing is a failed cycle. A failed
  cycle adds one to the consecutive-failure counter: the loop goes on with the counter
  raised by one while that stays below the maximum, and is left, with no further cycle,
  when it reaches the maximum.
\<close>

theorem empty_batch_fails_and_counts:
  "returned (send_metrics s tok timestamp namespace backend []) = False
   \<and> posts (send_metrics s tok timestamp namespace backend []) = []
   \<and> (c_fault e \<noteq> CollectRaised
        \<and> get_nginx_key_metrics st (c_scrape e) (c_current_time e) (c_store_time e)
            = Inr (metrics, st') \<longrightarrow>
        collect_and_send_metrics st s e
          = (returned (send_metrics s (c_token e) (c_timestamp e) ''Custom/NGINX''
                         (c_backend e) metrics), st'))
   \<and> (scrape_metrics (c_scrape e) = [] \<longrightarrow> fst (collect_and_send_metrics st s e) = False)
   \<and> (\<not> fst (collect_and_send_metrics st s e) \<and> max_consecutive_failures \<le> n + 1 \<longrightarrow>
        run_loop s st n k (e # es)
          = \<lparr>r_end = Returned, r_cycles = k + 1, r_failures = n + 1\<rparr>)
   \<and> (\<not> fst (collect_and_send_metrics st s e) \<and> n + 1 < max_consecutive_failures
        \<and> c_fault e = NoFault \<and> \<not> c_signal e \<longrightarrow>
        run_loop s st n k (e # es)
          = run_loop s (snd (collect_and_send_metrics st s e)) (n + 1) (k + 1) es)"
proof (intro conjI impI)
  show "returned (send_metrics s tok timestamp namespace backend []) = False"
    by (rule send_metrics_empty)
  show "posts (send_metrics s tok timestamp namespace backend []) = []"
    by (simp add: send_metrics_def split: token_result.split)
next
  assume "c_fault e \<noteq> CollectRaised
        \<and> get_nginx_key_metrics st (c_scrape e) (c_current_time e) (c_store_time e)
            = Inr (metrics, st')"
  then show "collect_and_send_metrics st s e
          = (returned (send_metrics s (c_token e) (c_timestamp e) ''Custom/NGINX''
                         (c_backend e) metrics), st')"
    using collect_is_send_result [of e st metrics st' s] by simp
next
  assume "scrape_metrics (c_scrape e) = []"
  then show "fst (collect_and_send_metrics st s e) = False" by (rule collect_empty_scrape)
next
  assume "\<not> fst (collect_and_send_metrics st s e) \<and> max_consecutive_failures \<le> n + 1"
  then show "run_loop s st n k (e # es)
          = \<lparr>r_end = Returned, r_cycles = k + 1, r_failures = n + 1\<rparr>"
    using run_loop_failure_at_threshold [of st s e n k es] by simp
next
  assume "\<not> fst (collect_and_send_metrics st s e) \<and> n + 1 < max_consecutive_failures
        \<and> c_fault e = NoFault \<and> \<not> c_signal e"
  then show "run_loop s st n k (e # es)
          = run_loop s (snd (collect_and_send_metrics st s e)) (n + 1) (k + 1) es"
    using run_loop_failure_below_threshold [of st s e n k es] by simp
qed

theorem empty_batch_fails_and_counts_witness:
  "collect_and_send_metrics new_scraper vm_sender empty_scrape_cycle = (False, new_scraper)
   \<and> run_loop vm_sender new_scraper 3 3
       [empty_scrape_cycle, empty_scrape_cycle, empty_scrape_cycle]
     = \<lparr>r_end = Returned, r_cycles = 5, r_failures = 5\<rparr>"
proof -
  have g: "c_fault empty_scrape_cycle \<noteq> CollectRaised
        \<and> get_nginx_key_metrics new_scraper (c_scrape empty_scrape_cycle)
            (c_current_time empty_scrape_cycle) (c_store_time empty_scrape_cycle)
            = Inr ([], new_scraper)"
    by (simp add: empty_scrape_cycle_def get_nginx_key_metrics_def scrape_metrics_def)
  have c: "collect_and_send_metrics new_scraper vm_sender empty_scrape_cycle
           = (False, new_scraper)"
    using empty_batch_fails_and_counts [of vm_sender "c_token empty_scrape_cycle"
        "c_timestamp empty_scrape_cycle" "''Custom/NGINX''" "c_backend empty_scrape_cycle"
        empty_scrape_cycle new_scraper "[]" new_scraper, THEN conjunct2, THEN conjunct2,
        THEN conjunct1, THEN mp, OF g]
      empty_batch_fails_and_counts [of vm_sender "c_token empty_scrape_cycle"
        "c_timestamp empty_scrape_cycle" "''Custom/NGINX''" "c_backend empty_scrape_cycle",
        THEN conjunct1]
    by simp
  have f: "\<not> fst (collect_and_send_metrics new_scraper vm_sender empty_scrape_cycle)"
    using c by simp
  have nf: "c_fault empty_scrape_cycle = NoFault \<and> \<not> c_signal empty_scrape_cycle"
    by (simp add: empty_scrape_cycle_def)
  have step1: "run_loop vm_sender new_scraper 3 3
                 [empty_scrape_cycle, empty_scrape_cycle, empty_scrape_cycle]
               = run_loop vm_sender new_scraper 4 4 [empty_scrape_cycle, empty_scrape_cycle]"
    using empty_batch_fails_and_counts [of vm_sender "c_token empty_scrape_cycle"
        "c_timestamp empty_scrape_cycle" "''Custom/NGINX''" "c_backend empty_scrape_cycle"
        empty_scrape_cycle new_scraper "[]" new_scraper 3 3
        "[empty_scrape_cycle, empty_scrape_cycle]",
        THEN conjunct2, THEN conjunct2, THEN conjunct2, THEN conjunct2, THEN conjunct2]
      f nf c
    by (simp add: max_consecutive_failures_def)
  have step2: "run_loop vm_sender new_scraper 4 4 [empty_scrape_cycle, empty_scrape_cycle]
               = \<lparr>r_end = Returned, r_cycles = 5, r_failures = 5\<rparr>"
    using empty_batch_fails_and_counts [of vm_sender "c_token empty_scrape_cycle"
        "c_timestamp empty_scrape_cycle" "''Custom/NGINX''" "c_backend empty_scrape_cycle"
        empty_scrape_cycle new_scraper "[]" new_scraper 4 4 "[empty_scrape_cycle]",
        THEN conjunct2, THEN conjunct2, THEN conjunct2, THEN conjunct2, THEN conjunct1]
      f
    by (simp add: max_consecutive_failures_def)
  show ?thesis using c step1 step2 by simp
qed

end
